theory Spec2Isabelle
  imports Main "HOL-Library.Word"
begin

section \<open>C data as HOL values\<close>

text \<open>
  The repository is one C translation unit, \<^verbatim>\<open>http.c\<close>, in three near-identical copies:
  the first and the third define \<^verbatim>\<open>http_post\<close> and \<^verbatim>\<open>http_get\<close> over a stack buffer
  \<^verbatim>\<open>char url[PATH_MAX]\<close> filled by \<^verbatim>\<open>snprintf\<close> (the first also defines \<^verbatim>\<open>http_init\<close>,
  \<^verbatim>\<open>http_cleanup\<close> and \<^verbatim>\<open>http_parse_url\<close>); the second is a standalone copy that builds
  the URL with \<^verbatim>\<open>asprintf\<close>, initialises libcurl by itself and sets no request headers.

  A C string is modelled by the list of its bytes before the terminating NUL and an
  \<^verbatim>\<open>unsigned\<close> by a 32-bit word. A \<^verbatim>\<open>size_t\<close> is a natural number below \<open>2 ^ 64\<close>, and
  where the code multiplies two arbitrary \<^verbatim>\<open>size_t\<close> arguments (the product
  \<^verbatim>\<open>size * nmemb\<close> of the two callbacks) the result is reduced modulo \<open>2 ^ 64\<close> by
  \<open>size_t\<close>. The other counts are sizes of objects that exist in memory at the same
  time (a buffer, the chunk to append to it, a string), so the sums the code forms of
  them do not wrap, and the cast \<^verbatim>\<open>(long)\<close> of such a size is the size itself.
  \<^verbatim>\<open>PATH_MAX\<close> is not defined in the repository; it is a parameter of every function
  that uses it.
\<close>

type_synonym cstring = string
type_synonym addr = nat
type_synonym junk = "nat \<Rightarrow> char"

definition NULL :: addr where
  "NULL = 0"

definition NUL :: char where
  "NUL = CHR 0x00"

definition strlen :: "cstring \<Rightarrow> nat" where
  "strlen s = length s"

definition SIZE_MAX :: nat where
  "SIZE_MAX = 18446744073709551615"

definition size_t :: "nat \<Rightarrow> nat" where
  "size_t n = n mod (SIZE_MAX + 1)"

subsection \<open>The heap\<close>

text \<open>
  The heap is the list of all blocks ever allocated; the block at position \<open>i\<close> has the
  address \<open>i + 1\<close>, so that no address is \<open>NULL\<close> and none is used twice. A released
  block is \<open>None\<close>. An allocation either fails (the outcome \<open>None\<close>, the C function
  returns \<open>NULL\<close> and changes nothing) or succeeds with the bytes \<open>j\<close> that the fresh
  memory happens to hold. \<^verbatim>\<open>realloc\<close> of \<open>NULL\<close> is \<^verbatim>\<open>malloc\<close>; a successful
  \<^verbatim>\<open>realloc\<close> keeps the old bytes up to the new size and releases the old block.
  \<^verbatim>\<open>memcpy\<close> outside a live block is undefined in C; here it leaves the heap as it is.
\<close>

type_synonym heap = "string option list"

definition block_at :: "heap \<Rightarrow> addr \<Rightarrow> string option" where
  "block_at h p = (if p = NULL \<or> length h < p then None else h ! (p - 1))"

definition malloc :: "junk option \<Rightarrow> nat \<Rightarrow> heap \<Rightarrow> addr \<times> heap" where
  "malloc oc n h =
     (case oc of
        None \<Rightarrow> (NULL, h)
      | Some j \<Rightarrow> (Suc (length h), h @ [Some (map j [0..<n])]))"

definition free :: "addr \<Rightarrow> heap \<Rightarrow> heap" where
  "free p h = (if p = NULL \<or> length h < p then h else h[p - 1 := None])"

definition realloc :: "junk option \<Rightarrow> addr \<Rightarrow> nat \<Rightarrow> heap \<Rightarrow> addr \<times> heap" where
  "realloc oc p n h =
     (case oc of
        None \<Rightarrow> (NULL, h)
      | Some j \<Rightarrow>
          (case block_at h p of
             None \<Rightarrow> malloc (Some j) n h
           | Some old \<Rightarrow>
               (Suc (length h),
                free p h @ [Some (take n old @ map j [length old..<n])])))"

definition memcpy :: "addr \<Rightarrow> nat \<Rightarrow> string \<Rightarrow> heap \<Rightarrow> heap" where
  "memcpy p off src h =
     (case block_at h p of
        None \<Rightarrow> h
      | Some b \<Rightarrow>
          if off + length src \<le> length b
          then h[p - 1 := Some (take off b @ src @ drop (off + length src) b)]
          else h)"

text \<open>\<^verbatim>\<open>strdup\<close> allocates \<open>strlen s + 1\<close> bytes and copies the string and its NUL.\<close>

definition strdup :: "junk option \<Rightarrow> cstring \<Rightarrow> heap \<Rightarrow> addr \<times> heap" where
  "strdup oc s h =
     (case malloc oc (strlen s + 1) h of
        (p, h1) \<Rightarrow> if p = NULL then (NULL, h1) else (p, memcpy p 0 (s @ [NUL]) h1))"

text \<open>The C string a pointer to a block points to: the bytes before the first NUL.\<close>

definition cstring_at :: "heap \<Rightarrow> addr \<Rightarrow> cstring" where
  "cstring_at h p =
     (case block_at h p of None \<Rightarrow> [] | Some b \<Rightarrow> takeWhile (\<lambda>c. c \<noteq> NUL) b)"

section \<open>The URL builder\<close>

text \<open>\<^verbatim>\<open>while (*path && *path == '/') path += 1;\<close>\<close>

fun skip_slashes :: "cstring \<Rightarrow> cstring" where
  "skip_slashes [] = []"
| "skip_slashes (c # cs) = (if c = CHR ''/'' then skip_slashes cs else c # cs)"

text \<open>The conversion \<^verbatim>\<open>%u\<close>: the decimal digits of an unsigned number, no leading zero.\<close>

function utoa :: "nat \<Rightarrow> string" where
  "utoa n = (if n < 10 then [''0123456789'' ! n]
             else utoa (n div 10) @ [''0123456789'' ! (n mod 10)])"
  by pat_completeness auto
termination
  by (relation "measure id") auto

declare utoa.simps [simp del]

text \<open>The expansion of the format \<^verbatim>\<open>"%s:%u/%s"\<close>.\<close>

definition format_url :: "cstring \<Rightarrow> 32 word \<Rightarrow> cstring \<Rightarrow> string" where
  "format_url host port path = host @ '':'' @ utoa (unat port) @ ''/'' @ path"

definition INT_MAX :: nat where
  "INT_MAX = 2147483647"

text \<open>
  \<^verbatim>\<open>snprintf(buf, n, ...)\<close> on the expanded text \<open>s\<close>: it returns the length of \<open>s\<close>, not
  the number of bytes stored, and stores at most \<open>n - 1\<close> bytes of \<open>s\<close> before the NUL.
  It returns \<open>-1\<close> only when the length does not fit an \<^verbatim>\<open>int\<close>.
\<close>

definition snprintf :: "nat \<Rightarrow> string \<Rightarrow> int \<times> string" where
  "snprintf n s =
     (if INT_MAX < length s then (- 1, [])
      else (int (length s), take (n - 1) s))"


section \<open>The streaming callbacks\<close>

record read_callback_data =
  r_data :: cstring
  r_size :: nat

record write_callback_data =
  w_data :: addr
  w_size :: nat

text \<open>
  \<^verbatim>\<open>read_callback(dest, size, nmemb, userp)\<close>: the result is the count returned, the
  bytes stored at \<open>dest\<close>, and the structure behind \<open>userp\<close> as the call leaves it. The
  field \<open>r_data\<close> is the text from the cursor on, so \<^verbatim>\<open>data->data += n\<close> drops \<open>n\<close> bytes.
  The product \<^verbatim>\<open>size * nmemb\<close> is formed in \<^verbatim>\<open>size_t\<close> and wraps.
\<close>

definition read_callback ::
  "nat \<Rightarrow> nat \<Rightarrow> read_callback_data \<Rightarrow> nat \<times> string \<times> read_callback_data" where
  "read_callback sz nmemb d =
     (let buffer_size = size_t (sz * nmemb) in
      if r_size d \<noteq> 0 then
        (let copy_this_much =
               (if r_size d > buffer_size then buffer_size else r_size d)
         in (copy_this_much,
             take copy_this_much (r_data d),
             d\<lparr>r_data := drop copy_this_much (r_data d),
               r_size := r_size d - copy_this_much\<rparr>))
      else (0, [], d))"

text \<open>
  \<^verbatim>\<open>write_callback(contents, size, nmemb, userp)\<close>, with the outcome of its one
  \<^verbatim>\<open>realloc\<close>: the count returned, the structure behind \<open>userp\<close> and the heap. Here
  \<open>contents\<close> is the chunk the transport hands over. The product \<^verbatim>\<open>size * nmemb\<close> is
  formed in \<^verbatim>\<open>size_t\<close> and wraps; the chunk and the buffer it is appended to are in
  memory together, so the new size \<^verbatim>\<open>data->size + real_size + 1\<close> is not reduced.
\<close>

definition write_callback ::
  "junk option \<Rightarrow> string \<Rightarrow> nat \<Rightarrow> nat \<Rightarrow> write_callback_data \<Rightarrow> heap
     \<Rightarrow> nat \<times> write_callback_data \<times> heap" where
  "write_callback oc contents sz nmemb d h =
     (let real_size = size_t (sz * nmemb) in
      case realloc oc (w_data d) (w_size d + real_size + 1) h of
        (ptr, h1) \<Rightarrow>
          if ptr = NULL then (0, d, h1)
          else
            (let d1 = d\<lparr>w_data := ptr\<rparr>;
                 h2 = memcpy (w_data d1) (w_size d1) (take real_size contents) h1;
                 d2 = d1\<lparr>w_size := w_size d1 + real_size\<rparr>;
                 h3 = memcpy (w_data d2) (w_size d2) [NUL] h2
             in (real_size, d2, h3)))"

section \<open>The transport\<close>

text \<open>
  Modelled from the spec: libcurl is not part of the repository. An easy handle is the
  record of the options set on it. A transfer is what the transport does with the two
  callbacks: a list of events, each one invocation (an upload buffer of \<open>n\<close> bytes
  offered to the read callback, or a received chunk handed to the write callback together
  with the outcome of that call's \<^verbatim>\<open>realloc\<close>), and the code the transfer ends with when no
  callback stops it. A write callback that reports fewer bytes than it was offered is a
  fatal error of the transfer: it stops there with \<^verbatim>\<open>CURLE_WRITE_ERROR\<close>. libcurl offers
  and hands over bytes with \<open>size = 1\<close>. Setting an option and appending to a header
  list are taken to succeed.
\<close>

definition CURLE_OK :: nat where
  "CURLE_OK = 0"

definition CURLE_WRITE_ERROR :: nat where
  "CURLE_WRITE_ERROR = 23"

record easy =
  opt_url :: string
  opt_post :: bool
  opt_postfieldsize :: int
  opt_httpheader :: "string list"

definition curl_easy_init :: easy where
  "curl_easy_init =
     \<lparr>opt_url = [], opt_post = False, opt_postfieldsize = - 1, opt_httpheader = []\<rparr>"

definition curl_slist_append :: "string list \<Rightarrow> string \<Rightarrow> string list" where
  "curl_slist_append l s = l @ [s]"

datatype event = Upload nat | Download string "junk option"

record transfer =
  x_response :: write_callback_data
  x_request :: "read_callback_data option"
  x_sent :: string
  x_heap :: heap

fun curl_easy_perform :: "event list \<Rightarrow> nat \<Rightarrow> transfer \<Rightarrow> nat \<times> transfer" where
  "curl_easy_perform [] res x = (res, x)"
| "curl_easy_perform (Upload n # es) res x =
     (case x_request x of
        None \<Rightarrow> curl_easy_perform es res x
      | Some rd \<Rightarrow>
          (case read_callback 1 n rd of
             (c, out, rd1) \<Rightarrow>
               curl_easy_perform es res
                 (x\<lparr>x_request := Some rd1, x_sent := x_sent x @ out\<rparr>)))"
| "curl_easy_perform (Download chunk oc # es) res x =
     (case write_callback oc chunk 1 (length chunk) (x_response x) (x_heap x) of
        (c, w, h) \<Rightarrow>
          if c \<noteq> length chunk
          then (CURLE_WRITE_ERROR, x\<lparr>x_response := w, x_heap := h\<rparr>)
          else curl_easy_perform es res (x\<lparr>x_response := w, x_heap := h\<rparr>))"

text \<open>
  What the surroundings decide in one call of \<^verbatim>\<open>http_post\<close> or \<^verbatim>\<open>http_get\<close>: whether
  \<^verbatim>\<open>malloc(1)\<close> succeeds, whether \<^verbatim>\<open>curl_easy_init\<close> returns a handle, and the transfer.
\<close>

record surroundings =
  first_block :: "junk option"
  handle_ok :: bool
  events :: "event list"
  final_code :: nat

text \<open>
  What a call leaves behind: the value returned, the caller's variable behind the
  out-parameter \<open>response\<close> (\<open>None\<close> while nothing was ever stored in it), the heap, the
  handle as configured when the transfer started (\<open>None\<close> when none started) and the
  body bytes the read callback handed to the transport.
\<close>

record http_result =
  ret :: int
  response :: "addr option"
  heap_after :: heap
  performed :: "easy option"
  sent :: string

section \<open>The requests\<close>

text \<open>\<^verbatim>\<open>http_post\<close> of the first and the third copy.\<close>

definition http_post ::
  "nat \<Rightarrow> surroundings \<Rightarrow> cstring \<Rightarrow> 32 word \<Rightarrow> cstring \<Rightarrow> cstring
     \<Rightarrow> addr option \<Rightarrow> heap \<Rightarrow> http_result" where
  "http_post PATH_MAX env host port path json response0 h =
     (case snprintf PATH_MAX (format_url host port (skip_slashes path)) of
        (n, url) \<Rightarrow>
          if n = - 1
          then \<lparr>ret = - 1, response = response0, heap_after = h,
                performed = None, sent = []\<rparr>
          else
            (case malloc (first_block env) 1 h of
               (p, h1) \<Rightarrow>
                 (let response_data = \<lparr>w_data = p, w_size = 0\<rparr>;
                      request_data = \<lparr>r_data = json, r_size = strlen json\<rparr>
                  in if handle_ok env then
                       (let curl = curl_easy_init\<lparr>opt_url := url\<rparr>;
                            curl = curl\<lparr>opt_post := True\<rparr>;
                            curl = curl\<lparr>opt_postfieldsize := int (r_size request_data)\<rparr>;
                            headers = [];
                            headers = curl_slist_append headers ''Accept: application/json'';
                            headers = curl_slist_append headers ''Content-Type: application/json'';
                            headers = curl_slist_append headers ''charsets: utf-8'';
                            curl = curl\<lparr>opt_httpheader := headers\<rparr>
                        in case curl_easy_perform (events env) (final_code env)
                                  \<lparr>x_response = response_data,
                                   x_request = Some request_data,
                                   x_sent = [], x_heap = h1\<rparr> of
                             (res, x) \<Rightarrow>
                               \<lparr>ret = int res,
                                response = Some (w_data (x_response x)),
                                heap_after = x_heap x,
                                performed = Some curl, sent = x_sent x\<rparr>)
                     else \<lparr>ret = - 1, response = response0, heap_after = h1,
                           performed = None, sent = []\<rparr>)))"

text \<open>\<^verbatim>\<open>http_get\<close> of the first and the third copy.\<close>

definition http_get ::
  "nat \<Rightarrow> surroundings \<Rightarrow> cstring \<Rightarrow> 32 word \<Rightarrow> cstring
     \<Rightarrow> addr option \<Rightarrow> heap \<Rightarrow> http_result" where
  "http_get PATH_MAX env host port path response0 h =
     (case snprintf PATH_MAX (format_url host port (skip_slashes path)) of
        (n, url) \<Rightarrow>
          if n = - 1
          then \<lparr>ret = - 1, response = response0, heap_after = h,
                performed = None, sent = []\<rparr>
          else
            (case malloc (first_block env) 1 h of
               (p, h1) \<Rightarrow>
                 (let response_data = \<lparr>w_data = p, w_size = 0\<rparr>
                  in if handle_ok env then
                       (let curl = curl_easy_init\<lparr>opt_url := url\<rparr>
                        in case curl_easy_perform (events env) (final_code env)
                                  \<lparr>x_response = response_data, x_request = None,
                                   x_sent = [], x_heap = h1\<rparr> of
                             (res, x) \<Rightarrow>
                               \<lparr>ret = int res,
                                response = Some (w_data (x_response x)),
                                heap_after = x_heap x,
                                performed = Some curl, sent = x_sent x\<rparr>)
                     else \<lparr>ret = - 1, response = response0, heap_after = h1,
                           performed = None, sent = []\<rparr>)))"

section \<open>Process-wide initialisation\<close>

text \<open>
  The two static flags \<^verbatim>\<open>_curl_global_init_spawned\<close> and
  \<^verbatim>\<open>_curl_global_cleanup_spawned\<close>, and the calls made into the library so far.
\<close>

datatype libcall = Curl_global_init | Curl_global_cleanup

record globals =
  curl_global_init_spawned :: bool
  curl_global_cleanup_spawned :: bool
  lib_calls :: "libcall list"

definition process_start :: globals where
  "process_start =
     \<lparr>curl_global_init_spawned = False, curl_global_cleanup_spawned = False,
      lib_calls = []\<rparr>"

definition http_init :: "globals \<Rightarrow> globals" where
  "http_init g =
     (if \<not> curl_global_init_spawned g
      then (g\<lparr>lib_calls := lib_calls g @ [Curl_global_init]\<rparr>)
             \<lparr>curl_global_init_spawned := True\<rparr>
      else g)"

definition http_cleanup :: "globals \<Rightarrow> globals" where
  "http_cleanup g =
     (if \<not> curl_global_cleanup_spawned g
      then (g\<lparr>lib_calls := lib_calls g @ [Curl_global_cleanup]\<rparr>)
             \<lparr>curl_global_cleanup_spawned := True\<rparr>
      else g)"

text \<open>A caller's sequence of calls, run from left to right.\<close>

datatype api_call = Http_init | Http_cleanup

fun run_calls :: "api_call list \<Rightarrow> globals \<Rightarrow> globals" where
  "run_calls [] g = g"
| "run_calls (Http_init # cs) g = run_calls cs (http_init g)"
| "run_calls (Http_cleanup # cs) g = run_calls cs (http_cleanup g)"

text \<open>
  Modelled from the spec: the transport's global state, which libcurl keeps. It is set
  up after \<^verbatim>\<open>curl_global_init\<close> and torn down after \<^verbatim>\<open>curl_global_cleanup\<close>; before the
  first call it is not set up.
\<close>

definition transport_up :: "libcall list \<Rightarrow> bool" where
  "transport_up cs = (cs \<noteq> [] \<and> last cs = Curl_global_init)"

section \<open>The standalone copy\<close>





section \<open>The URL parser\<close>

text \<open>
  libcurl's URL interface is not part of the repository. Its error codes are a
  datatype (\<^verbatim>\<open>CURLUE_OK\<close> is left out: a call answers \<open>Inr\<close> with its result or \<open>Inl\<close>
  with one of these); a handle that \<^verbatim>\<open>curl_url_set\<close> has filled is the record of what
  \<^verbatim>\<open>curl_url_get\<close> answers for each part. What \<^verbatim>\<open>curl_url_set\<close> makes of a text (with the
  flag \<^verbatim>\<open>CURLU_GUESS_SCHEME\<close>) is a parameter, as are whether \<^verbatim>\<open>curl_url\<close> returns a
  handle and the outcomes of the three \<^verbatim>\<open>strdup\<close> calls.
\<close>

datatype CURLUcode =
    CURLUE_BAD_HANDLE
  | CURLUE_MALFORMED_INPUT
  | CURLUE_BAD_PORT_NUMBER
  | CURLUE_UNSUPPORTED_SCHEME
  | CURLUE_OUT_OF_MEMORY
  | CURLUE_NO_HOST
  | CURLUE_NO_PORT
  | CURLUE_NO_QUERY

record curlu =
  part_host :: "CURLUcode + cstring"
  part_port :: "CURLUcode + cstring"
  part_path :: "CURLUcode + cstring"
  part_query :: "CURLUcode + cstring"

record url_api =
  curl_url_ok :: bool
  curl_url_set :: "cstring \<Rightarrow> CURLUcode + curlu"
  dup_host :: "junk option"
  dup_path :: "junk option"
  dup_query :: "junk option"

text \<open>
  \<^verbatim>\<open>strtoul(s, 0, 10)\<close>: white space, an optional sign, then decimal digits up to the
  first other byte; \<^verbatim>\<open>ULONG_MAX\<close> when the digits exceed it. The result is then stored
  in an \<^verbatim>\<open>unsigned\<close>, which keeps its low 32 bits.
\<close>

definition isspace :: "char \<Rightarrow> bool" where
  "isspace c = (c = CHR '' '' \<or> (9 \<le> (of_char c :: nat) \<and> (of_char c :: nat) \<le> 13))"

definition isdigit :: "char \<Rightarrow> bool" where
  "isdigit c = (48 \<le> (of_char c :: nat) \<and> (of_char c :: nat) \<le> 57)"

fun digits_value :: "nat \<Rightarrow> string \<Rightarrow> nat" where
  "digits_value acc [] = acc"
| "digits_value acc (c # cs) =
     (if isdigit c then digits_value (acc * 10 + (of_char c - 48)) cs else acc)"

definition ULONG_MAX :: nat where
  "ULONG_MAX = 18446744073709551615"

definition strtoul :: "cstring \<Rightarrow> nat" where
  "strtoul s =
     (let t = dropWhile isspace s;
          neg = (t \<noteq> [] \<and> hd t = CHR ''-'');
          u = (if t \<noteq> [] \<and> (hd t = CHR ''-'' \<or> hd t = CHR ''+'') then tl t else t);
          v = digits_value 0 u
      in if ULONG_MAX < v then ULONG_MAX
         else if neg then (ULONG_MAX + 1 - v) mod (ULONG_MAX + 1)
         else v)"

text \<open>
  The four out-parameters of \<^verbatim>\<open>http_parse_url\<close>: the caller's variables behind
  \<open>host\<close>, \<open>port\<close>, \<open>path\<close> and \<open>query\<close>.
\<close>

record url_parts =
  host_var :: addr
  port_var :: "32 word"
  path_var :: addr
  query_var :: addr

definition http_parse_url ::
  "url_api \<Rightarrow> cstring \<Rightarrow> url_parts \<Rightarrow> heap \<Rightarrow> int \<times> url_parts \<times> heap" where
  "http_parse_url api url out h =
     (if \<not> curl_url_ok api then (- 1, out, h)
      else
        case curl_url_set api url of
          Inl url_code \<Rightarrow> (- 1, out, h)
        | Inr url_h \<Rightarrow>
            (case part_host url_h of
               Inl url_code \<Rightarrow> (- 1, out, h)
             | Inr host1 \<Rightarrow>
                 (case (case part_port url_h of
                          Inl url_code \<Rightarrow>
                            if url_code = CURLUE_NO_PORT then Some 80 else None
                        | Inr port1 \<Rightarrow> Some (of_nat (strtoul port1))) of
                    None \<Rightarrow> (- 1, out, h)
                  | Some port_int \<Rightarrow>
                      (case part_path url_h of
                         Inl url_code \<Rightarrow> (- 1, out, h)
                       | Inr path1 \<Rightarrow>
                           (case (case part_query url_h of
                                    Inl url_code \<Rightarrow>
                                      if url_code \<noteq> CURLUE_NO_QUERY then None
                                      else Some None
                                  | Inr query1 \<Rightarrow> Some (Some query1)) of
                              None \<Rightarrow> (- 1, out, h)
                            | Some query1 \<Rightarrow>
                                (case strdup (dup_host api) host1 h of
                                   (ph, h1) \<Rightarrow>
                                     (case strdup (dup_path api) path1 h1 of
                                        (pp, h2) \<Rightarrow>
                                          (case strdup (dup_query api)
                                                  (case query1 of
                                                     Some q \<Rightarrow> q
                                                   | None \<Rightarrow> [])
                                                  h2 of
                                             (pq, h3) \<Rightarrow>
                                               (0,
                                                \<lparr>host_var = ph, port_var = port_int,
                                                 path_var = pp, query_var = pq\<rparr>,
                                                h3)))))))))"

section \<open>Auxiliary notions\<close>

text \<open>
  The invariant of the two guards: the library's global set-up has been called once if
  the first flag is set and never otherwise, and likewise for the tear-down.
\<close>

definition guarded :: "globals \<Rightarrow> bool" where
  "guarded g =
     (count_list (lib_calls g) Curl_global_init =
        (if curl_global_init_spawned g then 1 else 0) \<and>
      count_list (lib_calls g) Curl_global_cleanup =
        (if curl_global_cleanup_spawned g then 1 else 0))"

text \<open>
  The response buffer behind a \<open>write_callback_data\<close>: it is well formed when its pointer
  is \<open>NULL\<close> with size 0 (the \<^verbatim>\<open>malloc(1)\<close> failed) or points to a live block with room
  for the \<open>w_size\<close> bytes and one more; its contents are the first \<open>w_size\<close> bytes.
\<close>

definition valid_buffer :: "heap \<Rightarrow> write_callback_data \<Rightarrow> bool" where
  "valid_buffer h d =
     (case block_at h (w_data d) of
        None \<Rightarrow> w_data d = NULL \<and> w_size d = 0
      | Some b \<Rightarrow> w_size d < length b)"

definition buffer_bytes :: "heap \<Rightarrow> write_callback_data \<Rightarrow> string" where
  "buffer_bytes h d =
     (case block_at h (w_data d) of None \<Rightarrow> [] | Some b \<Rightarrow> take (w_size d) b)"

definition old_block :: "heap \<Rightarrow> addr \<Rightarrow> string" where
  "old_block h p = (case block_at h p of None \<Rightarrow> [] | Some b \<Rightarrow> b)"

text \<open>
  Surroundings for the examples: every allocation succeeds and finds the byte \<open>?\<close> in
  fresh memory, \<^verbatim>\<open>curl_easy_init\<close> returns a handle, and the transfer ends with
  \<^verbatim>\<open>CURLE_OK\<close> after no callback at all.
\<close>

definition fresh :: junk where
  "fresh = (\<lambda>i. CHR ''?'')"

definition quiet :: surroundings where
  "quiet = \<lparr>first_block = Some fresh, handle_ok = True, events = [], final_code = 0\<rparr>"

text \<open>
  A URL interface for the examples. It answers the two texts of \<^verbatim>\<open>main\<close> the way libcurl
  documents it for a text without a port, and without a query in the second case (whose
  path libcurl gives as \<open>/\<close>); every other text is malformed. All allocations succeed.
  In \<open>short_of_memory\<close> the first \<^verbatim>\<open>strdup\<close>, the one of the host, fails.
\<close>

definition wikipedia :: url_api where
  "wikipedia =
     \<lparr>curl_url_ok = True,
      curl_url_set =
        (\<lambda>u. if u = ''http://wikipedia.com/elo321/123elo?build_id=johnny&name=john''
             then Inr \<lparr>part_host = Inr ''wikipedia.com'', part_port = Inl CURLUE_NO_PORT,
                       part_path = Inr ''/elo321/123elo'',
                       part_query = Inr ''build_id=johnny&name=john''\<rparr>
             else if u = ''wikipedia.com''
             then Inr \<lparr>part_host = Inr ''wikipedia.com'', part_port = Inl CURLUE_NO_PORT,
                       part_path = Inr ''/'', part_query = Inl CURLUE_NO_QUERY\<rparr>
             else Inl CURLUE_MALFORMED_INPUT),
      dup_host = Some fresh, dup_path = Some fresh, dup_query = Some fresh\<rparr>"

definition short_of_memory :: url_api where
  "short_of_memory = wikipedia\<lparr>dup_host := None\<rparr>"



section \<open>Process-wide initialisation: properties\<close>

lemma http_init_calls:
  "count_list (lib_calls (http_init g)) Curl_global_init =
     (if curl_global_init_spawned g then count_list (lib_calls g) Curl_global_init
      else Suc (count_list (lib_calls g) Curl_global_init))"
  "count_list (lib_calls (http_init g)) Curl_global_cleanup =
     count_list (lib_calls g) Curl_global_cleanup"
  "curl_global_init_spawned (http_init g)"
  "curl_global_cleanup_spawned (http_init g) = curl_global_cleanup_spawned g"
  by (simp_all add: http_init_def)

lemma http_cleanup_calls:
  "count_list (lib_calls (http_cleanup g)) Curl_global_cleanup =
     (if curl_global_cleanup_spawned g then count_list (lib_calls g) Curl_global_cleanup
      else Suc (count_list (lib_calls g) Curl_global_cleanup))"
  "count_list (lib_calls (http_cleanup g)) Curl_global_init =
     count_list (lib_calls g) Curl_global_init"
  "curl_global_cleanup_spawned (http_cleanup g)"
  "curl_global_init_spawned (http_cleanup g) = curl_global_init_spawned g"
  by (simp_all add: http_cleanup_def)

lemma guarded_run_calls: "guarded g \<Longrightarrow> guarded (run_calls cs g)"
proof (induction cs arbitrary: g)
  case Nil
  then show ?case by simp
next
  case (Cons c cs)
  show ?case
  proof (cases c)
    case Http_init
    have "guarded (http_init g)"
      using Cons.prems by (simp add: guarded_def http_init_calls)
    then show ?thesis using Cons.IH Http_init by simp
  next
    case Http_cleanup
    have "guarded (http_cleanup g)"
      using Cons.prems by (simp add: guarded_def http_cleanup_calls)
    then show ?thesis using Cons.IH Http_cleanup by simp
  qed
qed

lemma guarded_process_start: "guarded process_start"
  by (simp add: guarded_def process_start_def)

lemma init_spawned_run_calls:
  "curl_global_init_spawned g \<Longrightarrow>
     curl_global_init_spawned (run_calls cs g) \<and>
     count_list (lib_calls (run_calls cs g)) Curl_global_init =
       count_list (lib_calls g) Curl_global_init"
proof (induction cs arbitrary: g)
  case Nil
  then show ?case by simp
next
  case (Cons c cs)
  show ?case
  proof (cases c)
    case Http_init
    have "http_init g = g" using Cons.prems by (simp add: http_init_def)
    then show ?thesis using Cons Http_init by simp
  next
    case Http_cleanup
    then show ?thesis
      using Cons.IH [of "http_cleanup g"] Cons.prems by (simp add: http_cleanup_calls)
  qed
qed

lemma cleanup_spawned_run_calls:
  "curl_global_cleanup_spawned g \<Longrightarrow>
     curl_global_cleanup_spawned (run_calls cs g) \<and>
     count_list (lib_calls (run_calls cs g)) Curl_global_cleanup =
       count_list (lib_calls g) Curl_global_cleanup"
proof (induction cs arbitrary: g)
  case Nil
  then show ?case by simp
next
  case (Cons c cs)
  show ?case
  proof (cases c)
    case Http_cleanup
    have "http_cleanup g = g" using Cons.prems by (simp add: http_cleanup_def)
    then show ?thesis using Cons Http_cleanup by simp
  next
    case Http_init
    then show ?thesis
      using Cons.IH [of "http_init g"] Cons.prems by (simp add: http_init_calls)
  qed
qed

text \<open>
  Claim C9. In every sequence of calls of \<open>http_init\<close> and \<open>http_cleanup\<close> from the start
  of the process, the library's global set-up is called at most once and its global
  tear-down at most once; a second \<open>http_init\<close> changes nothing, a second
  \<open>http_cleanup\<close> changes nothing, and an \<open>http_cleanup\<close> with no \<open>http_init\<close> before it
  calls the tear-down once.
\<close>

theorem init_cleanup_at_most_once:
  "count_list (lib_calls (run_calls cs process_start)) Curl_global_init \<le> 1 \<and>
   count_list (lib_calls (run_calls cs process_start)) Curl_global_cleanup \<le> 1 \<and>
   http_init (http_init g) = http_init g \<and>
   http_cleanup (http_cleanup g) = http_cleanup g \<and>
   lib_calls (run_calls [Http_cleanup, Http_cleanup] process_start) = [Curl_global_cleanup]"
proof -
  have "guarded (run_calls cs process_start)"
    using guarded_process_start by (rule guarded_run_calls)
  then show ?thesis
    by (auto simp: guarded_def http_init_def http_cleanup_def process_start_def
        split: if_splits)
qed

text \<open>
  Claim C10, as the claim states it: once \<open>http_cleanup\<close> has run, a later \<open>http_init\<close>
  changes nothing. It fails for a process that calls \<open>http_cleanup\<close> first: the
  \<open>http_init\<close> after it still finds its own flag clear and sets the library up.
\<close>

theorem init_after_cleanup_not_noop:
  "http_init (run_calls [Http_cleanup] process_start) \<noteq> run_calls [Http_cleanup] process_start \<and>
   lib_calls (run_calls [Http_cleanup, Http_init] process_start) =
     [Curl_global_cleanup, Curl_global_init]"
  by (simp add: http_init_def http_cleanup_def process_start_def)

text \<open>
  Claim C10, amended. The two guards are independent one-shot flags that are never
  reset. Once \<open>http_init\<close> has run, whatever calls follow (\<open>http_cleanup\<close> included),
  its flag stays set, a later \<open>http_init\<close> changes nothing and the set-up is not called
  again. Once \<open>http_cleanup\<close> has run, whatever calls follow, its flag stays set, a
  later \<open>http_cleanup\<close> changes nothing and the tear-down is not called again; an
  \<open>http_init\<close> after it leaves the cleanup flag and the tear-down count alone. Over the
  whole life of the process the set-up and the tear-down are each called at most once,
  so there is at most one cycle: the sequence init, cleanup, init calls the set-up once
  and the tear-down once, in this order, and leaves the transport torn down. An
  \<open>http_init\<close> that follows an \<open>http_cleanup\<close> with no \<open>http_init\<close> before it is not a
  no-op: it sets the transport up.
\<close>

theorem one_shot_flags:
  "curl_global_init_spawned (run_calls cs (http_init g)) \<and>
   http_init (run_calls cs (http_init g)) = run_calls cs (http_init g) \<and>
   count_list (lib_calls (run_calls cs (http_init g))) Curl_global_init =
     count_list (lib_calls (http_init g)) Curl_global_init \<and>
   curl_global_cleanup_spawned (run_calls cs (http_cleanup g)) \<and>
   http_cleanup (run_calls cs (http_cleanup g)) = run_calls cs (http_cleanup g) \<and>
   count_list (lib_calls (run_calls cs (http_cleanup g))) Curl_global_cleanup =
     count_list (lib_calls (http_cleanup g)) Curl_global_cleanup \<and>
   curl_global_cleanup_spawned (http_init g) = curl_global_cleanup_spawned g \<and>
   curl_global_init_spawned (http_cleanup g) = curl_global_init_spawned g \<and>
   count_list (lib_calls (run_calls cs process_start)) Curl_global_init \<le> 1 \<and>
   count_list (lib_calls (run_calls cs process_start)) Curl_global_cleanup \<le> 1 \<and>
   lib_calls (run_calls [Http_init, Http_cleanup, Http_init] process_start) =
     [Curl_global_init, Curl_global_cleanup] \<and>
   \<not> transport_up (lib_calls (run_calls [Http_init, Http_cleanup, Http_init] process_start)) \<and>
   lib_calls (run_calls [Http_cleanup, Http_init] process_start) =
     [Curl_global_cleanup, Curl_global_init] \<and>
   transport_up (lib_calls (run_calls [Http_cleanup, Http_init] process_start))"
proof -
  have s: "curl_global_init_spawned (http_init g)" by (simp add: http_init_calls)
  have a: "curl_global_init_spawned (run_calls cs (http_init g))"
    using init_spawned_run_calls [OF s] by simp
  have b: "count_list (lib_calls (run_calls cs (http_init g))) Curl_global_init =
     count_list (lib_calls (http_init g)) Curl_global_init"
    using init_spawned_run_calls [OF s] by simp
  have c: "http_init (run_calls cs (http_init g)) = run_calls cs (http_init g)"
    using a by (simp add: http_init_def)
  have s2: "curl_global_cleanup_spawned (http_cleanup g)" by (simp add: http_cleanup_calls)
  have a2: "curl_global_cleanup_spawned (run_calls cs (http_cleanup g))"
    using cleanup_spawned_run_calls [OF s2] by simp
  have b2: "count_list (lib_calls (run_calls cs (http_cleanup g))) Curl_global_cleanup =
     count_list (lib_calls (http_cleanup g)) Curl_global_cleanup"
    using cleanup_spawned_run_calls [OF s2] by simp
  have c2: "http_cleanup (run_calls cs (http_cleanup g)) = run_calls cs (http_cleanup g)"
    using a2 by (simp add: http_cleanup_def)
  have i: "curl_global_cleanup_spawned (http_init g) = curl_global_cleanup_spawned g"
    "curl_global_init_spawned (http_cleanup g) = curl_global_init_spawned g"
    by (simp_all add: http_init_calls http_cleanup_calls)
  have "guarded (run_calls cs process_start)"
    using guarded_process_start by (rule guarded_run_calls)
  then have m: "count_list (lib_calls (run_calls cs process_start)) Curl_global_init \<le> 1"
    "count_list (lib_calls (run_calls cs process_start)) Curl_global_cleanup \<le> 1"
    by (simp_all add: guarded_def)
  have d: "lib_calls (run_calls [Http_init, Http_cleanup, Http_init] process_start) =
     [Curl_global_init, Curl_global_cleanup]"
    by (simp add: http_init_def http_cleanup_def process_start_def)
  have e: "\<not> transport_up (lib_calls (run_calls [Http_init, Http_cleanup, Http_init] process_start))"
    unfolding d by (simp add: transport_up_def)
  have d2: "lib_calls (run_calls [Http_cleanup, Http_init] process_start) =
     [Curl_global_cleanup, Curl_global_init]"
    by (simp add: http_init_def http_cleanup_def process_start_def)
  have e2: "transport_up (lib_calls (run_calls [Http_cleanup, Http_init] process_start))"
    unfolding d2 by (simp add: transport_up_def)
  show ?thesis using a b c a2 b2 c2 i m d e d2 e2 by simp
qed

section \<open>The URL builder: properties\<close>

lemma skip_slashes_dropWhile: "skip_slashes p = dropWhile (\<lambda>c. c = CHR ''/'') p"
  by (induction p) simp_all

lemma skip_slashes_no_slash: "skip_slashes p = [] \<or> hd (skip_slashes p) \<noteq> CHR ''/''"
  by (induction p) simp_all

lemma skip_slashes_split:
  "p = replicate (length (takeWhile (\<lambda>c. c = CHR ''/'') p)) (CHR ''/'') @ skip_slashes p"
  by (induction p) simp_all

lemma http_get_performed:
  "performed (http_get PATH_MAX env host port path r h) =
     (if handle_ok env \<and> length (format_url host port (skip_slashes path)) \<le> INT_MAX
      then Some (curl_easy_init
             \<lparr>opt_url := take (PATH_MAX - 1) (format_url host port (skip_slashes path))\<rparr>)
      else None)"
  by (auto simp: http_get_def snprintf_def Let_def split: prod.splits)

lemma http_post_performed:
  "performed (http_post PATH_MAX env host port path json r h) =
     (if handle_ok env \<and> length (format_url host port (skip_slashes path)) \<le> INT_MAX
      then Some
             \<lparr>opt_url = take (PATH_MAX - 1) (format_url host port (skip_slashes path)),
              opt_post = True, opt_postfieldsize = int (length json),
              opt_httpheader =
                [''Accept: application/json'', ''Content-Type: application/json'',
                 ''charsets: utf-8'']\<rparr>
      else None)"
  by (auto simp: http_post_def snprintf_def curl_easy_init_def curl_slist_append_def
      strlen_def Let_def split: prod.splits)

text \<open>The text that \<^verbatim>\<open>%u\<close> prints is the decimal numeral of the number.\<close>

lemma digit_char:
  "m < 10 \<Longrightarrow> isdigit (''0123456789'' ! m) \<and> of_char (''0123456789'' ! m) - 48 = m"
proof -
  assume "m < 10"
  then have "m \<in> {0, 1, 2, 3, 4, 5, 6, 7, 8, 9}" by auto
  then show ?thesis by (auto simp: isdigit_def)
qed

lemma digits_value_snoc:
  "list_all isdigit xs \<Longrightarrow> isdigit c \<Longrightarrow>
     digits_value acc (xs @ [c]) = digits_value acc xs * 10 + (of_char c - 48)"
  by (induction xs arbitrary: acc) simp_all

lemma utoa_decimal: "list_all isdigit (utoa n) \<and> digits_value 0 (utoa n) = n"
proof (induction n rule: utoa.induct)
  case (1 n)
  show ?case
  proof (cases "n < 10")
    case True
    then show ?thesis using digit_char [of n] by (simp add: utoa.simps [of n])
  next
    case False
    have d: "isdigit (''0123456789'' ! (n mod 10))"
      "of_char (''0123456789'' ! (n mod 10)) - 48 = n mod 10"
      using digit_char [of "n mod 10"] by simp_all
    have ih: "list_all isdigit (utoa (n div 10))" "digits_value 0 (utoa (n div 10)) = n div 10"
      using 1 False by simp_all
    have u: "utoa n = utoa (n div 10) @ [''0123456789'' ! (n mod 10)]"
      using False by (simp add: utoa.simps [of n])
    show ?thesis
      unfolding u using ih d by (simp add: digits_value_snoc)
  qed
qed

text \<open>
  Claim C1, as the claim states it (the URL is the whole text for every host, port and
  path). It fails where the text does not fit the buffer: with \<open>PATH_MAX = 4096\<close> and a
  host of 4096 bytes, \<open>http_get\<close> hands the transport the first 4095 bytes of the host
  and neither the port nor the path.
\<close>

theorem built_url_cut_short:
  "map_option opt_url
     (performed (http_get 4096 quiet (replicate 4096 (CHR ''a'')) 80 ''/x'' None [])) =
     Some (replicate 4095 (CHR ''a'')) \<and>
   map_option opt_url
     (performed (http_get 4096 quiet (replicate 4096 (CHR ''a'')) 80 ''/x'' None [])) \<noteq>
     Some (replicate 4096 (CHR ''a'') @ '':'' @ utoa (unat (80 :: 32 word)) @ ''/'' @
           dropWhile (\<lambda>c. c = CHR ''/'') ''/x'')"
proof -
  have a: "map_option opt_url
     (performed (http_get 4096 quiet (replicate 4096 (CHR ''a'')) 80 ''/x'' None [])) =
     Some (replicate 4095 (CHR ''a''))"
    by (simp add: http_get_performed quiet_def format_url_def INT_MAX_def utoa.simps
        curl_easy_init_def)
  have "length (replicate 4095 (CHR ''a'')) \<noteq>
     length (replicate 4096 (CHR ''a'') @ '':'' @ utoa (unat (80 :: 32 word)) @ ''/'' @
           dropWhile (\<lambda>c. c = CHR ''/'') ''/x'')"
    by simp
  then have b: "replicate 4095 (CHR ''a'') \<noteq>
     replicate 4096 (CHR ''a'') @ '':'' @ utoa (unat (80 :: 32 word)) @ ''/'' @
           dropWhile (\<lambda>c. c = CHR ''/'') ''/x''"
    by metis
  show ?thesis unfolding a using b by simp
qed

text \<open>
  Claim C1, amended. For every host, port and path whose text
  \<open>host : decimal(port) / path'\<close> is shorter than \<open>PATH_MAX\<close>, where \<open>path'\<close> is the path
  without its leading run of slashes, the URL that \<open>http_post\<close> and \<open>http_get\<close> hand to
  the transport is this text, whenever they start a transfer at all. The run is removed
  once: \<open>path'\<close> is the rest of the path after its leading slashes, it does not begin
  with a slash, and \<open>///x\<close> gives \<open>x\<close>, \<open>//a/b\<close> gives \<open>a/b\<close>. The text of the port
  consists of decimal digits and reads back as the port.
\<close>

theorem built_url:
  assumes "length (host @ '':'' @ utoa (unat port) @ ''/'' @
             dropWhile (\<lambda>c. c = CHR ''/'') path) < PATH_MAX"
  shows "map_option opt_url (performed (http_get PATH_MAX env host port path r h)) =
           (if handle_ok env \<and> length (format_url host port (skip_slashes path)) \<le> INT_MAX
            then Some (host @ '':'' @ utoa (unat port) @ ''/'' @
                       dropWhile (\<lambda>c. c = CHR ''/'') path)
            else None) \<and>
         map_option opt_url (performed (http_post PATH_MAX env host port path json r h)) =
           (if handle_ok env \<and> length (format_url host port (skip_slashes path)) \<le> INT_MAX
            then Some (host @ '':'' @ utoa (unat port) @ ''/'' @
                       dropWhile (\<lambda>c. c = CHR ''/'') path)
            else None) \<and>
         skip_slashes path = dropWhile (\<lambda>c. c = CHR ''/'') path \<and>
         path = replicate (length (takeWhile (\<lambda>c. c = CHR ''/'') path)) (CHR ''/'') @
                skip_slashes path \<and>
         (skip_slashes path = [] \<or> hd (skip_slashes path) \<noteq> CHR ''/'') \<and>
         skip_slashes ''///x'' = ''x'' \<and> skip_slashes ''//a/b'' = ''a/b'' \<and>
         list_all isdigit (utoa (unat port)) \<and>
         digits_value 0 (utoa (unat port)) = unat port"
proof -
  have f: "format_url host port (skip_slashes path) =
     host @ '':'' @ utoa (unat port) @ ''/'' @ dropWhile (\<lambda>c. c = CHR ''/'') path"
    by (simp add: format_url_def skip_slashes_dropWhile)
  have t: "take (PATH_MAX - 1) (format_url host port (skip_slashes path)) =
     format_url host port (skip_slashes path)"
    using assms unfolding f by simp
  have g: "map_option opt_url (performed (http_get PATH_MAX env host port path r h)) =
           (if handle_ok env \<and> length (format_url host port (skip_slashes path)) \<le> INT_MAX
            then Some (format_url host port (skip_slashes path)) else None)"
    unfolding http_get_performed t by (simp add: curl_easy_init_def)
  have p: "map_option opt_url (performed (http_post PATH_MAX env host port path json r h)) =
           (if handle_ok env \<and> length (format_url host port (skip_slashes path)) \<le> INT_MAX
            then Some (format_url host port (skip_slashes path)) else None)"
    unfolding http_post_performed t by simp
  have s: "path = replicate (length (takeWhile (\<lambda>c. c = CHR ''/'') path)) (CHR ''/'') @
                skip_slashes path"
    by (rule skip_slashes_split)
  have n: "skip_slashes path = [] \<or> hd (skip_slashes path) \<noteq> CHR ''/''"
    by (rule skip_slashes_no_slash)
  have e: "skip_slashes ''///x'' = ''x'' \<and> skip_slashes ''//a/b'' = ''a/b''"
    by simp
  show ?thesis
    using g p s n e utoa_decimal [of "unat port"] unfolding f
    by (simp add: skip_slashes_dropWhile)
qed

theorem built_url_witness:
  "length (''localhost'' @ '':'' @ utoa (unat (5000 :: 32 word)) @ ''/'' @
      dropWhile (\<lambda>c. c = CHR ''/'') ''///home/x'') < (4096 :: nat) \<and>
   map_option opt_url
     (performed (http_get 4096 quiet ''localhost'' 5000 ''///home/x'' None [])) =
     Some ''localhost:5000/home/x'' \<and>
   map_option opt_url
     (performed (http_post 4096 quiet ''localhost'' 5000 ''///home/x'' ''{}'' None [])) =
     Some ''localhost:5000/home/x''"
proof -
  have l: "length (''localhost'' @ '':'' @ utoa (unat (5000 :: 32 word)) @ ''/'' @
      dropWhile (\<lambda>c. c = CHR ''/'') ''///home/x'') < (4096 :: nat)"
    by (simp add: utoa.simps)
  show ?thesis
    using l built_url [OF l, of quiet None "[]" "''{}''"]
    by (simp add: quiet_def format_url_def INT_MAX_def utoa.simps)
qed

text \<open>
  Claim C3. The claim asks for an error where the text does not fit the buffer. The code
  compares the result of \<^verbatim>\<open>snprintf\<close> with \<open>-1\<close>, but on truncation \<^verbatim>\<open>snprintf\<close> returns
  the length of the whole text: with \<open>PATH_MAX = 4096\<close> and a host of 4096 bytes both
  functions go on, hand the transport the first 4095 bytes and return its code, here
  \<^verbatim>\<open>CURLE_OK\<close>.
\<close>

theorem long_url_not_reported:
  "ret (http_post 4096 quiet (replicate 4096 (CHR ''a'')) 80 ''/x'' ''{}'' None []) = 0 \<and>
   map_option opt_url
     (performed (http_post 4096 quiet (replicate 4096 (CHR ''a'')) 80 ''/x'' ''{}'' None [])) =
     Some (replicate 4095 (CHR ''a'')) \<and>
   ret (http_get 4096 quiet (replicate 4096 (CHR ''a'')) 80 ''/x'' None []) = 0 \<and>
   map_option opt_url
     (performed (http_get 4096 quiet (replicate 4096 (CHR ''a'')) 80 ''/x'' None [])) =
     Some (replicate 4095 (CHR ''a''))"
proof -
  have l: "length (format_url (replicate 4096 (CHR ''a'')) 80 (skip_slashes ''/x'')) = 4101"
    by (simp add: format_url_def utoa.simps)
  have a: "ret (http_post 4096 quiet (replicate 4096 (CHR ''a'')) 80 ''/x'' ''{}'' None []) = 0"
    by (simp add: http_post_def snprintf_def l INT_MAX_def quiet_def malloc_def Let_def
        del: skip_slashes.simps)
  have b: "ret (http_get 4096 quiet (replicate 4096 (CHR ''a'')) 80 ''/x'' None []) = 0"
    by (simp add: http_get_def snprintf_def l INT_MAX_def quiet_def malloc_def Let_def
        del: skip_slashes.simps)
  have c: "take 4095 (format_url (replicate 4096 (CHR ''a'')) 80 (skip_slashes ''/x'')) =
     replicate 4095 (CHR ''a'')"
    by (simp add: format_url_def)
  have h: "handle_ok quiet" by (simp add: quiet_def)
  have i: "(4101 :: nat) \<le> INT_MAX" by (simp add: INT_MAX_def)
  have n: "(4096 :: nat) - 1 = 4095" by simp
  show ?thesis
    unfolding a b http_post_performed http_get_performed l n c
    using h i by (simp add: curl_easy_init_def)
qed

section \<open>The response buffer: properties\<close>

lemma length_free: "length (free p h) = length h"
  by (simp add: free_def)

lemma block_at_fresh: "length h1 = length h \<Longrightarrow> block_at (h1 @ [x]) (Suc (length h)) = x"
  by (simp add: block_at_def NULL_def nth_append)

lemma realloc_Some:
  "realloc (Some j) p n h =
     (Suc (length h),
      (case block_at h p of None \<Rightarrow> h | Some b \<Rightarrow> free p h) @
        [Some (take n (old_block h p) @ map j [length (old_block h p)..<n])])"
  by (simp add: realloc_def malloc_def old_block_def split: option.splits)

lemma realloc_Some_block:
  "realloc (Some j) p n h = (q, h1) \<Longrightarrow>
     q = Suc (length h) \<and> q \<noteq> NULL \<and>
     block_at h1 q = Some (take n (old_block h p) @ map j [length (old_block h p)..<n])"
  by (auto simp: realloc_Some NULL_def block_at_fresh length_free split: option.splits)

lemma realloc_None: "realloc None p n h = (NULL, h)"
  by (simp add: realloc_def)

lemma memcpy_block:
  "block_at h p = Some b \<Longrightarrow> off + length src \<le> length b \<Longrightarrow>
     block_at (memcpy p off src h) p = Some (take off b @ src @ drop (off + length src) b)"
  by (auto simp: memcpy_def block_at_def NULL_def split: if_splits)

lemma splice:
  "length b0 = n + k + 1 \<Longrightarrow> length c = k \<Longrightarrow>
     take (n + k) (take n b0 @ c @ drop (n + k) b0) @ [z] @
       drop (n + k + 1) (take n b0 @ c @ drop (n + k) b0) = take n b0 @ c @ [z]"
  by simp

lemma grown_block:
  "n \<le> length old \<Longrightarrow>
     length (take (n + k + 1) old @ map j [length old..<n + k + 1]) = n + k + 1 \<and>
     take n (take (n + k + 1) old @ map j [length old..<n + k + 1]) = take n old"
  by auto

lemma write_callback_unfold:
  "realloc (Some j) (w_data d) (w_size d + size_t (sz * nmemb) + 1) h = (q, h0) \<Longrightarrow>
   q \<noteq> NULL \<Longrightarrow>
   write_callback (Some j) contents sz nmemb d h =
     (size_t (sz * nmemb), \<lparr>w_data = q, w_size = w_size d + size_t (sz * nmemb)\<rparr>,
      memcpy q (w_size d + size_t (sz * nmemb)) [NUL]
        (memcpy q (w_size d) (take (size_t (sz * nmemb)) contents) h0))"
  by (simp add: write_callback_def Let_def)

lemma write_callback_take:
  "write_callback oc contents sz nmemb d h =
     write_callback oc (take (size_t (sz * nmemb)) contents) sz nmemb d h"
  by (simp add: write_callback_def Let_def split: prod.splits)

lemma size_t_le: "size_t n \<le> n"
  by (simp add: size_t_def)

lemma size_t_small: "n \<le> SIZE_MAX \<Longrightarrow> size_t n = n"
  by (simp add: size_t_def)

lemma write_callback_fail: "write_callback None contents sz nmemb d h = (0, d, h)"
  by (simp add: write_callback_def realloc_None)

lemma length_buffer_bytes: "valid_buffer h d \<Longrightarrow> length (buffer_bytes h d) = w_size d"
  by (auto simp: valid_buffer_def buffer_bytes_def split: option.splits)

lemma write_callback_ok:
  assumes v: "valid_buffer h d" and len: "length contents = size_t (sz * nmemb)"
  shows "\<exists>q h1. write_callback (Some j) contents sz nmemb d h =
           (length contents, \<lparr>w_data = q, w_size = w_size d + length contents\<rparr>, h1) \<and>
         block_at h1 q = Some (buffer_bytes h d @ contents @ [NUL]) \<and> q \<noteq> NULL"
proof -
  define n where "n = w_size d"
  define k where "k = size_t (sz * nmemb)"
  define old where "old = old_block h (w_data d)"
  define b0 where "b0 = take (n + k + 1) old @ map j [length old..<n + k + 1]"
  obtain q h0 where q: "realloc (Some j) (w_data d) (n + k + 1) h = (q, h0)"
    by (cases "realloc (Some j) (w_data d) (n + k + 1) h") auto
  from realloc_Some_block [OF q] have qn: "q \<noteq> NULL" and b0: "block_at h0 q = Some b0"
    by (auto simp: b0_def old_def)
  have n_old: "n \<le> length old" and bb: "buffer_bytes h d = take n old"
    using v
    by (auto simp: valid_buffer_def old_block_def buffer_bytes_def n_def old_def
        split: option.splits)
  have l0: "length b0 = n + k + 1" and t: "take n b0 = take n old"
    using grown_block [OF n_old, of k j] by (simp_all add: b0_def)
  have lc: "length contents = k" by (simp add: len k_def)
  define b1 where "b1 = take n b0 @ contents @ drop (n + k) b0"
  define h2 where "h2 = memcpy q n contents h0"
  have b1: "block_at h2 q = Some b1"
    using memcpy_block [OF b0, of n contents] l0 lc by (simp add: b1_def h2_def)
  have l1: "length b1 = n + k + 1" using l0 lc by (simp add: b1_def)
  define h3 where "h3 = memcpy q (n + k) [NUL] h2"
  have "block_at h3 q = Some (take (n + k) b1 @ [NUL] @ drop (n + k + 1) b1)"
    using memcpy_block [OF b1, of "n + k" "[NUL]"] l1 by (simp add: h3_def)
  also have "take (n + k) b1 @ [NUL] @ drop (n + k + 1) b1 = take n b0 @ contents @ [NUL]"
    unfolding b1_def using l0 lc by (rule splice)
  finally have b3: "block_at h3 q = Some (buffer_bytes h d @ contents @ [NUL])"
    by (simp add: t bb)
  have "write_callback (Some j) contents sz nmemb d h =
          (k, \<lparr>w_data = q, w_size = n + k\<rparr>, h3)"
    using write_callback_unfold [of j d sz nmemb h q h0 contents] q qn lc
    by (simp add: n_def k_def h3_def h2_def)
  then show ?thesis using b3 qn lc by (auto simp: n_def)
qed

text \<open>
  Claim C4, as the claim states it (for every chunk, a failed allocation makes the
  callback return fewer bytes than it was offered, and the transfer is aborted). It
  fails for an empty chunk: the callback returns 0, which is what it was offered, so the
  transport sees no error, the transfer goes on and \<open>http_get\<close> returns \<^verbatim>\<open>CURLE_OK\<close>.
\<close>

theorem empty_chunk_not_aborted:
  "write_callback None [] 1 0 \<lparr>w_data = 1, w_size = 0\<rparr> [Some ''?''] =
     (0, \<lparr>w_data = 1, w_size = 0\<rparr>, [Some ''?'']) \<and>
   \<not> fst (write_callback None [] 1 0 \<lparr>w_data = 1, w_size = 0\<rparr> [Some ''?'']) <
       length ([] :: string) \<and>
   curl_easy_perform [Download [] None] CURLE_OK
       \<lparr>x_response = \<lparr>w_data = 1, w_size = 0\<rparr>, x_request = None, x_sent = [],
        x_heap = [Some ''?'']\<rparr> =
     (CURLE_OK,
      \<lparr>x_response = \<lparr>w_data = 1, w_size = 0\<rparr>, x_request = None, x_sent = [],
       x_heap = [Some ''?'']\<rparr>) \<and>
   ret (http_get 4096 (quiet\<lparr>events := [Download [] None]\<rparr>) ''localhost'' 5000 ''/home''
          None []) = 0"
proof -
  have l: "length (format_url ''localhost'' 5000 (skip_slashes ''/home'')) = 19"
    by (simp add: format_url_def utoa.simps)
  have r: "ret (http_get 4096 (quiet\<lparr>events := [Download [] None]\<rparr>) ''localhost'' 5000
          ''/home'' None []) = 0"
    by (simp add: http_get_def snprintf_def l INT_MAX_def quiet_def malloc_def Let_def
        write_callback_fail del: skip_slashes.simps)
  show ?thesis using r by (simp add: write_callback_fail CURLE_OK_def)
qed

text \<open>
  Claim C4, amended. On a well-formed buffer of \<open>n\<close> bytes and a chunk of
  \<open>k = size * nmemb\<close> bytes (the product as the callback forms it, in \<^verbatim>\<open>size_t\<close>):
  when the \<^verbatim>\<open>realloc\<close> succeeds, the callback returns \<open>k\<close>, the size becomes \<open>n + k\<close>, and
  the block holds the old \<open>n\<close> bytes, then the chunk, then a NUL at index \<open>n + k\<close>, so the
  buffer is well formed again and its contents are the old contents followed by the
  chunk; when the \<^verbatim>\<open>realloc\<close> fails, the callback returns 0 and leaves the structure
  and the heap as they were, and for a chunk that is not empty, where 0 is fewer than
  offered, the transport stops the transfer there with a write error.
\<close>

theorem write_callback_appends:
  assumes "valid_buffer h d" and "length contents = size_t (sz * nmemb)"
  shows "(\<exists>q h1.
            write_callback (Some j) contents sz nmemb d h =
              (length contents, \<lparr>w_data = q, w_size = w_size d + length contents\<rparr>, h1) \<and>
            block_at h1 q = Some (buffer_bytes h d @ contents @ [NUL]) \<and>
            (buffer_bytes h d @ contents @ [NUL]) ! (w_size d + length contents) = NUL \<and>
            buffer_bytes h1 \<lparr>w_data = q, w_size = w_size d + length contents\<rparr> =
              buffer_bytes h d @ contents \<and>
            valid_buffer h1 \<lparr>w_data = q, w_size = w_size d + length contents\<rparr>) \<and>
         length (buffer_bytes h d) = w_size d \<and>
         write_callback None contents sz nmemb d h = (0, d, h) \<and>
         curl_easy_perform (Download (c # contents) None # es) res
             \<lparr>x_response = d, x_request = rq, x_sent = st, x_heap = h\<rparr> =
           (CURLE_WRITE_ERROR, \<lparr>x_response = d, x_request = rq, x_sent = st, x_heap = h\<rparr>)"
proof -
  have lb: "length (buffer_bytes h d) = w_size d"
    using assms(1) by (rule length_buffer_bytes)
  obtain q h1 where w: "write_callback (Some j) contents sz nmemb d h =
           (length contents, \<lparr>w_data = q, w_size = w_size d + length contents\<rparr>, h1)"
    and b: "block_at h1 q = Some (buffer_bytes h d @ contents @ [NUL])"
    using write_callback_ok [OF assms, of j] by blast
  let ?d1 = "\<lparr>w_data = q, w_size = w_size d + length contents\<rparr>"
  have z: "(buffer_bytes h d @ contents @ [NUL]) ! (w_size d + length contents) = NUL"
    using lb by (simp add: nth_append)
  have bb: "buffer_bytes h1 ?d1 = buffer_bytes h d @ contents"
    using b lb by (simp add: buffer_bytes_def)
  have v: "valid_buffer h1 ?d1"
    using b lb by (simp add: valid_buffer_def)
  have first: "\<exists>q h1.
            write_callback (Some j) contents sz nmemb d h =
              (length contents, \<lparr>w_data = q, w_size = w_size d + length contents\<rparr>, h1) \<and>
            block_at h1 q = Some (buffer_bytes h d @ contents @ [NUL]) \<and>
            (buffer_bytes h d @ contents @ [NUL]) ! (w_size d + length contents) = NUL \<and>
            buffer_bytes h1 \<lparr>w_data = q, w_size = w_size d + length contents\<rparr> =
              buffer_bytes h d @ contents \<and>
            valid_buffer h1 \<lparr>w_data = q, w_size = w_size d + length contents\<rparr>"
    using w b z bb v by auto
  have f: "write_callback None contents sz nmemb d h = (0, d, h)"
    by (rule write_callback_fail)
  have p: "curl_easy_perform (Download (c # contents) None # es) res
             \<lparr>x_response = d, x_request = rq, x_sent = st, x_heap = h\<rparr> =
           (CURLE_WRITE_ERROR, \<lparr>x_response = d, x_request = rq, x_sent = st, x_heap = h\<rparr>)"
    by (simp add: write_callback_fail)
  show ?thesis using first lb f p by blast
qed

theorem write_callback_appends_witness:
  "valid_buffer [Some (''ab'' @ [NUL])] \<lparr>w_data = 1, w_size = 2\<rparr> \<and>
   length ''cd'' = size_t (1 * 2) \<and>
   write_callback (Some fresh) ''cd'' 1 2 \<lparr>w_data = 1, w_size = 2\<rparr> [Some (''ab'' @ [NUL])] =
     (2, \<lparr>w_data = 2, w_size = 4\<rparr>, [None, Some (''abcd'' @ [NUL])]) \<and>
   write_callback None ''cd'' 1 2 \<lparr>w_data = 1, w_size = 2\<rparr> [Some (''ab'' @ [NUL])] =
     (0, \<lparr>w_data = 1, w_size = 2\<rparr>, [Some (''ab'' @ [NUL])])"
proof -
  have v: "valid_buffer [Some (''ab'' @ [NUL])] \<lparr>w_data = 1, w_size = 2\<rparr>"
    by (simp add: valid_buffer_def block_at_def NULL_def)
  have l: "length ''cd'' = size_t (1 * 2)" by (simp add: size_t_def SIZE_MAX_def)
  have e: "write_callback (Some fresh) ''cd'' 1 2 \<lparr>w_data = 1, w_size = 2\<rparr>
             [Some (''ab'' @ [NUL])] =
           (2, \<lparr>w_data = 2, w_size = 4\<rparr>, [None, Some (''abcd'' @ [NUL])])"
    by (simp add: write_callback_def realloc_def block_at_def NULL_def free_def memcpy_def
        Let_def size_t_def SIZE_MAX_def)
  show ?thesis
    using v l e write_callback_appends [OF v l, of fresh]
    by simp
qed

section \<open>The URL parser: properties\<close>

lemma strdup_Some: "strdup (Some j) s h = (Suc (length h), h @ [Some (s @ [NUL])])"
  by (simp add: strdup_def malloc_def memcpy_def block_at_def NULL_def strlen_def)

lemma strdup_None: "strdup None s h = (NULL, h)"
  by (simp add: strdup_def malloc_def)

lemma cstring_at_copy:
  "NUL \<notin> set s \<Longrightarrow> length pre = n \<Longrightarrow> cstring_at (pre @ Some (s @ [NUL]) # post) (Suc n) = s"
  by (auto simp: cstring_at_def block_at_def NULL_def nth_append takeWhile_eq_all_conv
      intro!: takeWhile_append2 [THEN trans])

lemma http_parse_url_fails:
  "fst (http_parse_url api url out h) \<noteq> 0 \<Longrightarrow> http_parse_url api url out h = (- 1, out, h)"
  by (auto simp: http_parse_url_def split: sum.splits option.splits prod.splits if_splits)

lemma http_parse_url_succeeds:
  assumes "curl_url_ok api"
    and "curl_url_set api url =
           Inr \<lparr>part_host = Inr hs, part_port = Inl CURLUE_NO_PORT, part_path = Inr ps,
                part_query = q\<rparr>"
    and "dup_host api = Some j1" and "dup_path api = Some j2" and "dup_query api = Some j3"
    and "q = Inr qs \<or> (q = Inl CURLUE_NO_QUERY \<and> qs = [])"
  shows "http_parse_url api url out h =
           (0,
            \<lparr>host_var = Suc (length h), port_var = 80, path_var = Suc (Suc (length h)),
             query_var = Suc (Suc (Suc (length h)))\<rparr>,
            h @ [Some (hs @ [NUL]), Some (ps @ [NUL]), Some (qs @ [NUL])])"
  using assms by (auto simp: http_parse_url_def strdup_Some)

lemma three_copies:
  assumes "NUL \<notin> set a" and "NUL \<notin> set b" and "NUL \<notin> set c"
  shows "cstring_at (h @ [Some (a @ [NUL]), Some (b @ [NUL]), Some (c @ [NUL])])
           (Suc (length h)) = a"
    and "cstring_at (h @ [Some (a @ [NUL]), Some (b @ [NUL]), Some (c @ [NUL])])
           (Suc (Suc (length h))) = b"
    and "cstring_at (h @ [Some (a @ [NUL]), Some (b @ [NUL]), Some (c @ [NUL])])
           (Suc (Suc (Suc (length h)))) = c"
proof -
  show "cstring_at (h @ [Some (a @ [NUL]), Some (b @ [NUL]), Some (c @ [NUL])])
           (Suc (length h)) = a"
    using cstring_at_copy [OF assms(1), of h "length h" "[Some (b @ [NUL]), Some (c @ [NUL])]"]
    by simp
  show "cstring_at (h @ [Some (a @ [NUL]), Some (b @ [NUL]), Some (c @ [NUL])])
           (Suc (Suc (length h))) = b"
    using cstring_at_copy [OF assms(2), of "h @ [Some (a @ [NUL])]" "Suc (length h)"
        "[Some (c @ [NUL])]"]
    by simp
  show "cstring_at (h @ [Some (a @ [NUL]), Some (b @ [NUL]), Some (c @ [NUL])])
           (Suc (Suc (Suc (length h)))) = c"
    using cstring_at_copy [OF assms(3), of "h @ [Some (a @ [NUL]), Some (b @ [NUL])]"
        "Suc (Suc (length h))" "[]"]
    by simp
qed

text \<open>
  Claim C2. Let libcurl split the first text of \<^verbatim>\<open>main\<close> into the host
  \<open>wikipedia.com\<close>, the path \<open>/elo321/123elo\<close> and the query
  \<open>build_id=johnny&name=john\<close> and report no port, and let it accept the text
  \<open>wikipedia.com\<close> with this host, some path, no port and no query; let the three
  \<^verbatim>\<open>strdup\<close> calls succeed. Then \<open>http_parse_url\<close> returns 0 on both; on the first it
  stores copies of exactly these parts and the port 80, on the second the port 80 and,
  for the query, a pointer that is not \<open>NULL\<close> to the empty string.
\<close>

theorem parse_url_examples:
  assumes "curl_url_ok api"
    and "curl_url_set api ''http://wikipedia.com/elo321/123elo?build_id=johnny&name=john'' =
           Inr \<lparr>part_host = Inr ''wikipedia.com'', part_port = Inl CURLUE_NO_PORT,
                part_path = Inr ''/elo321/123elo'',
                part_query = Inr ''build_id=johnny&name=john''\<rparr>"
    and "curl_url_set api ''wikipedia.com'' =
           Inr \<lparr>part_host = Inr ''wikipedia.com'', part_port = Inl CURLUE_NO_PORT,
                part_path = Inr p, part_query = Inl CURLUE_NO_QUERY\<rparr>"
    and "dup_host api = Some j1" and "dup_path api = Some j2" and "dup_query api = Some j3"
  shows "(\<exists>out1 h1.
            http_parse_url api
              ''http://wikipedia.com/elo321/123elo?build_id=johnny&name=john'' out h =
              (0, out1, h1) \<and>
            cstring_at h1 (host_var out1) = ''wikipedia.com'' \<and>
            port_var out1 = 80 \<and>
            cstring_at h1 (path_var out1) = ''/elo321/123elo'' \<and>
            cstring_at h1 (query_var out1) = ''build_id=johnny&name=john'') \<and>
         (\<exists>out2 h2.
            http_parse_url api ''wikipedia.com'' out h = (0, out2, h2) \<and>
            cstring_at h2 (host_var out2) = ''wikipedia.com'' \<and>
            port_var out2 = 80 \<and>
            query_var out2 \<noteq> NULL \<and>
            cstring_at h2 (query_var out2) = [])"
proof -
  have n1: "NUL \<notin> set ''wikipedia.com''" and n2: "NUL \<notin> set ''/elo321/123elo''"
    and n3: "NUL \<notin> set ''build_id=johnny&name=john''" and n4: "NUL \<notin> set []"
    by (simp_all add: NUL_def)
  have a: "http_parse_url api
              ''http://wikipedia.com/elo321/123elo?build_id=johnny&name=john'' out h =
           (0,
            \<lparr>host_var = Suc (length h), port_var = 80, path_var = Suc (Suc (length h)),
             query_var = Suc (Suc (Suc (length h)))\<rparr>,
            h @ [Some (''wikipedia.com'' @ [NUL]), Some (''/elo321/123elo'' @ [NUL]),
                 Some (''build_id=johnny&name=john'' @ [NUL])])"
    using http_parse_url_succeeds [OF assms(1,2,4,5,6), of "''build_id=johnny&name=john''"]
    by simp
  have first: "\<exists>out1 h1.
            http_parse_url api
              ''http://wikipedia.com/elo321/123elo?build_id=johnny&name=john'' out h =
              (0, out1, h1) \<and>
            cstring_at h1 (host_var out1) = ''wikipedia.com'' \<and>
            port_var out1 = 80 \<and>
            cstring_at h1 (path_var out1) = ''/elo321/123elo'' \<and>
            cstring_at h1 (query_var out1) = ''build_id=johnny&name=john''"
    unfolding a using three_copies [OF n1 n2 n3, of h] by simp
  have b: "http_parse_url api ''wikipedia.com'' out h =
           (0,
            \<lparr>host_var = Suc (length h), port_var = 80, path_var = Suc (Suc (length h)),
             query_var = Suc (Suc (Suc (length h)))\<rparr>,
            h @ [Some (''wikipedia.com'' @ [NUL]), Some (p @ [NUL]), Some ([] @ [NUL])])"
    using http_parse_url_succeeds [OF assms(1,3,4,5,6), of "[]"]
    by simp
  have h0: "cstring_at (h @ [Some (''wikipedia.com'' @ [NUL]), Some (p @ [NUL]),
                 Some ([] @ [NUL])]) (Suc (length h)) = ''wikipedia.com''"
    using cstring_at_copy [OF n1, of h "length h" "[Some (p @ [NUL]), Some ([] @ [NUL])]"]
    by simp
  have q0: "cstring_at (h @ [Some (''wikipedia.com'' @ [NUL]), Some (p @ [NUL]),
                 Some ([] @ [NUL])]) (Suc (Suc (Suc (length h)))) = []"
    using cstring_at_copy [OF n4,
        of "h @ [Some (''wikipedia.com'' @ [NUL]), Some (p @ [NUL])]" "Suc (Suc (length h))" "[]"]
    by simp
  have second: "\<exists>out2 h2.
            http_parse_url api ''wikipedia.com'' out h = (0, out2, h2) \<and>
            cstring_at h2 (host_var out2) = ''wikipedia.com'' \<and>
            port_var out2 = 80 \<and>
            query_var out2 \<noteq> NULL \<and>
            cstring_at h2 (query_var out2) = []"
    unfolding b using h0 q0 by (simp add: NULL_def)
  show ?thesis using first second by blast
qed

theorem parse_url_examples_witness:
  "curl_url_ok wikipedia \<and>
   dup_host wikipedia = Some fresh \<and> dup_path wikipedia = Some fresh \<and>
   dup_query wikipedia = Some fresh \<and>
   http_parse_url wikipedia
       ''http://wikipedia.com/elo321/123elo?build_id=johnny&name=john''
       \<lparr>host_var = NULL, port_var = 0, path_var = NULL, query_var = NULL\<rparr> [] =
     (0, \<lparr>host_var = 1, port_var = 80, path_var = 2, query_var = 3\<rparr>,
      [Some (''wikipedia.com'' @ [NUL]), Some (''/elo321/123elo'' @ [NUL]),
       Some (''build_id=johnny&name=john'' @ [NUL])]) \<and>
   http_parse_url wikipedia ''wikipedia.com''
       \<lparr>host_var = NULL, port_var = 0, path_var = NULL, query_var = NULL\<rparr> [] =
     (0, \<lparr>host_var = 1, port_var = 80, path_var = 2, query_var = 3\<rparr>,
      [Some (''wikipedia.com'' @ [NUL]), Some (''/'' @ [NUL]), Some [NUL]])"
proof -
  have a: "curl_url_ok wikipedia" by (simp add: wikipedia_def)
  have b: "curl_url_set wikipedia
             ''http://wikipedia.com/elo321/123elo?build_id=johnny&name=john'' =
           Inr \<lparr>part_host = Inr ''wikipedia.com'', part_port = Inl CURLUE_NO_PORT,
                part_path = Inr ''/elo321/123elo'',
                part_query = Inr ''build_id=johnny&name=john''\<rparr>"
    by (simp add: wikipedia_def)
  have c: "curl_url_set wikipedia ''wikipedia.com'' =
           Inr \<lparr>part_host = Inr ''wikipedia.com'', part_port = Inl CURLUE_NO_PORT,
                part_path = Inr ''/'', part_query = Inl CURLUE_NO_QUERY\<rparr>"
    by (simp add: wikipedia_def)
  have d: "dup_host wikipedia = Some fresh" "dup_path wikipedia = Some fresh"
    "dup_query wikipedia = Some fresh"
    by (simp_all add: wikipedia_def)
  have e: "http_parse_url wikipedia
       ''http://wikipedia.com/elo321/123elo?build_id=johnny&name=john''
       \<lparr>host_var = NULL, port_var = 0, path_var = NULL, query_var = NULL\<rparr> [] =
     (0, \<lparr>host_var = 1, port_var = 80, path_var = 2, query_var = 3\<rparr>,
      [Some (''wikipedia.com'' @ [NUL]), Some (''/elo321/123elo'' @ [NUL]),
       Some (''build_id=johnny&name=john'' @ [NUL])])"
    using http_parse_url_succeeds [OF a b d, of "''build_id=johnny&name=john''"]
    by simp
  have f: "http_parse_url wikipedia ''wikipedia.com''
       \<lparr>host_var = NULL, port_var = 0, path_var = NULL, query_var = NULL\<rparr> [] =
     (0, \<lparr>host_var = 1, port_var = 80, path_var = 2, query_var = 3\<rparr>,
      [Some (''wikipedia.com'' @ [NUL]), Some (''/'' @ [NUL]), Some [NUL]])"
    using http_parse_url_succeeds [OF a c d, of "[]"]
    by simp
  show ?thesis
    using a d e f
      parse_url_examples [OF a b c d,
        of "\<lparr>host_var = NULL, port_var = 0, path_var = NULL, query_var = NULL\<rparr>" "[]"]
    by simp
qed

text \<open>
  Claim C7. The claim asks that running out of memory makes \<open>http_parse_url\<close> return
  \<open>-1\<close> and store nothing. The results of the three \<^verbatim>\<open>strdup\<close> calls are not checked:
  when the first of them fails on the text \<open>wikipedia.com\<close>, the function returns 0
  and has stored \<open>NULL\<close> for the host beside a port, a path and a query.
\<close>

theorem strdup_failure_not_reported:
  "http_parse_url short_of_memory ''wikipedia.com''
       \<lparr>host_var = NULL, port_var = 0, path_var = NULL, query_var = NULL\<rparr> [] =
     (0, \<lparr>host_var = NULL, port_var = 80, path_var = 1, query_var = 2\<rparr>,
      [Some (''/'' @ [NUL]), Some [NUL]])"
  by (simp add: http_parse_url_def short_of_memory_def wikipedia_def strdup_Some strdup_None)

section \<open>The requests: properties\<close>




lemma write_callback_valid:
  assumes "valid_buffer h d" and "write_callback oc chunk sz nmemb d h = (c, d1, h1)"
    and "size_t (sz * nmemb) \<le> length chunk"
  shows "valid_buffer h1 d1"
proof (cases oc)
  case None
  then show ?thesis using assms by (simp add: write_callback_fail)
next
  case (Some j)
  let ?part = "take (size_t (sz * nmemb)) chunk"
  have l: "length ?part = size_t (sz * nmemb)" using assms(3) by simp
  obtain q h2 where w: "write_callback (Some j) ?part sz nmemb d h =
           (length ?part, \<lparr>w_data = q, w_size = w_size d + length ?part\<rparr>, h2)"
    and b: "block_at h2 q = Some (buffer_bytes h d @ ?part @ [NUL])"
    using write_callback_ok [OF assms(1) l, of j] by blast
  have "write_callback (Some j) chunk sz nmemb d h =
          (length ?part, \<lparr>w_data = q, w_size = w_size d + length ?part\<rparr>, h2)"
    using w write_callback_take [of "Some j" chunk sz nmemb d h] by simp
  then have "d1 = \<lparr>w_data = q, w_size = w_size d + length ?part\<rparr>" and "h1 = h2"
    using assms(2) Some by auto
  then show ?thesis
    using b length_buffer_bytes [OF assms(1)] l by (simp add: valid_buffer_def)
qed

lemma perform_valid:
  "valid_buffer (x_heap x) (x_response x) \<Longrightarrow> curl_easy_perform es res x = (c, y) \<Longrightarrow>
     valid_buffer (x_heap y) (x_response y)"
proof (induction es arbitrary: x)
  case Nil
  then show ?case by simp
next
  case (Cons e es)
  show ?case
  proof (cases e)
    case (Upload n)
    show ?thesis
    proof (cases "x_request x")
      case None
      then have "curl_easy_perform es res x = (c, y)"
        using Cons.prems(2) Upload by simp
      then show ?thesis using Cons.IH [of x] Cons.prems(1) by simp
    next
      case (Some rd)
      obtain k out rd1 where rc: "read_callback 1 n rd = (k, out, rd1)"
        by (cases "read_callback 1 n rd") auto
      have "curl_easy_perform es res (x\<lparr>x_request := Some rd1, x_sent := x_sent x @ out\<rparr>) =
              (c, y)"
        using Cons.prems(2) Upload Some rc by simp
      then show ?thesis
        using Cons.IH [of "x\<lparr>x_request := Some rd1, x_sent := x_sent x @ out\<rparr>"]
          Cons.prems(1)
        by simp
    qed
  next
    case (Download chunk oc)
    obtain k d1 h1 where w:
      "write_callback oc chunk 1 (length chunk) (x_response x) (x_heap x) = (k, d1, h1)"
      by (cases "write_callback oc chunk 1 (length chunk) (x_response x) (x_heap x)") auto
    have v: "valid_buffer h1 d1"
      using Cons.prems(1) w by (rule write_callback_valid) (simp add: size_t_le)
    show ?thesis
    proof (cases "k = length chunk")
      case True
      have "curl_easy_perform es res (x\<lparr>x_response := d1, x_heap := h1\<rparr>) = (c, y)"
        using Cons.prems(2) Download w True by simp
      then show ?thesis using Cons.IH [of "x\<lparr>x_response := d1, x_heap := h1\<rparr>"] v by simp
    next
      case False
      then have "y = x\<lparr>x_response := d1, x_heap := h1\<rparr>"
        using Cons.prems(2) Download w by simp
      then show ?thesis using v by simp
    qed
  qed
qed

lemma malloc_one_valid:
  "malloc oc 1 h = (p, h1) \<Longrightarrow> valid_buffer h1 \<lparr>w_data = p, w_size = 0\<rparr>"
  by (auto simp: malloc_def valid_buffer_def block_at_def NULL_def nth_append
      split: option.splits)

text \<open>
  Claim C6. The claim asks that on every failure path the response out-parameter is
  left holding a valid allocation. When \<^verbatim>\<open>curl_easy_init\<close> returns no handle, both
  functions return \<open>-1\<close> without storing anything in it, so it holds whatever the caller
  had there (here: nothing), and the block of \<^verbatim>\<open>malloc(1)\<close> stays allocated with no
  pointer to it left.
\<close>

theorem no_handle_no_response:
  "http_get 4096 (quiet\<lparr>handle_ok := False\<rparr>) ''localhost'' 5000 ''/home'' None [] =
     \<lparr>ret = - 1, response = None, heap_after = [Some ''?''], performed = None, sent = []\<rparr> \<and>
   http_post 4096 (quiet\<lparr>handle_ok := False\<rparr>) ''localhost'' 5000 ''/home''
       ''Hello World'' None [] =
     \<lparr>ret = - 1, response = None, heap_after = [Some ''?''], performed = None, sent = []\<rparr>"
proof -
  have l: "length (format_url ''localhost'' 5000 (skip_slashes ''/home'')) = 19"
    by (simp add: format_url_def utoa.simps)
  show ?thesis
    by (simp add: http_get_def http_post_def snprintf_def l INT_MAX_def quiet_def malloc_def
        fresh_def Let_def del: skip_slashes.simps)
qed

text \<open>
  The other failure path, and success: whenever a transfer is started, whatever code it
  ends with, the out-parameter is assigned, and what it holds is a well-formed response
  buffer: \<open>NULL\<close> with no bytes, or a live block with the received bytes.
\<close>

lemma started_transfer_assigns_response:
  assumes "handle_ok env"
    and "length (format_url host port (skip_slashes path)) \<le> INT_MAX"
  shows "(\<exists>d. response (http_get PATH_MAX env host port path r h) = Some (w_data d) \<and>
            valid_buffer (heap_after (http_get PATH_MAX env host port path r h)) d) \<and>
         (\<exists>d. response (http_post PATH_MAX env host port path json r h) = Some (w_data d) \<and>
            valid_buffer (heap_after (http_post PATH_MAX env host port path json r h)) d)"
proof -
  obtain p0 h0 where m: "malloc (first_block env) 1 h = (p0, h0)"
    by (cases "malloc (first_block env) 1 h") auto
  have v0: "valid_buffer h0 \<lparr>w_data = p0, w_size = 0\<rparr>"
    using m by (rule malloc_one_valid)
  have s: "snprintf PATH_MAX (format_url host port (skip_slashes path)) =
     (int (length (format_url host port (skip_slashes path))),
      take (PATH_MAX - 1) (format_url host port (skip_slashes path)))"
    using assms(2) by (simp add: snprintf_def)
  have g: "\<exists>d. response (http_get PATH_MAX env host port path r h) = Some (w_data d) \<and>
            valid_buffer (heap_after (http_get PATH_MAX env host port path r h)) d"
  proof -
    obtain c y where e: "curl_easy_perform (events env) (final_code env)
          \<lparr>x_response = \<lparr>w_data = p0, w_size = 0\<rparr>, x_request = None, x_sent = [],
           x_heap = h0\<rparr> = (c, y)"
      by (cases "curl_easy_perform (events env) (final_code env)
          \<lparr>x_response = \<lparr>w_data = p0, w_size = 0\<rparr>, x_request = None, x_sent = [],
           x_heap = h0\<rparr>") auto
    have "valid_buffer (x_heap y) (x_response y)"
      using perform_valid [OF _ e] v0 by simp
    then show ?thesis
      using assms(1) m e by (auto simp: http_get_def s Let_def)
  qed
  have q: "\<exists>d. response (http_post PATH_MAX env host port path json r h) = Some (w_data d) \<and>
            valid_buffer (heap_after (http_post PATH_MAX env host port path json r h)) d"
  proof -
    obtain c y where e: "curl_easy_perform (events env) (final_code env)
          \<lparr>x_response = \<lparr>w_data = p0, w_size = 0\<rparr>,
           x_request = Some \<lparr>r_data = json, r_size = strlen json\<rparr>, x_sent = [],
           x_heap = h0\<rparr> = (c, y)"
      by (cases "curl_easy_perform (events env) (final_code env)
          \<lparr>x_response = \<lparr>w_data = p0, w_size = 0\<rparr>,
           x_request = Some \<lparr>r_data = json, r_size = strlen json\<rparr>, x_sent = [],
           x_heap = h0\<rparr>") auto
    have "valid_buffer (x_heap y) (x_response y)"
      using perform_valid [OF _ e] v0 by simp
    then show ?thesis
      using assms(1) m e by (auto simp: http_post_def s Let_def)
  qed
  show ?thesis using g q by simp
qed

section \<open>The request body: properties\<close>

lemma read_callback_eq:
  "read_callback sz nmemb d =
     (min (r_size d) (size_t (sz * nmemb)),
      take (min (r_size d) (size_t (sz * nmemb))) (r_data d),
      d\<lparr>r_data := drop (min (r_size d) (size_t (sz * nmemb))) (r_data d),
        r_size := r_size d - min (r_size d) (size_t (sz * nmemb))\<rparr>)"
  by (simp add: read_callback_def Let_def min_def)

lemma uploads:
  "curl_easy_perform (map Upload ns) res
     \<lparr>x_response = w, x_request = Some \<lparr>r_data = drop m json, r_size = length json - m\<rparr>,
      x_sent = take m json, x_heap = h\<rparr> =
   (res,
    \<lparr>x_response = w,
     x_request = Some \<lparr>r_data = drop (m + sum_list (map size_t ns)) json,
                       r_size = length json - (m + sum_list (map size_t ns))\<rparr>,
     x_sent = take (m + sum_list (map size_t ns)) json, x_heap = h\<rparr>)"
proof (induction ns arbitrary: m)
  case Nil
  then show ?case by simp
next
  case (Cons n0 ns)
  define n where "n = size_t n0"
  define rest where "rest = sum_list (map size_t ns)"
  let ?c = "min (length json - m) n"
  have s: "take m json @ take ?c (drop m json) = take (m + ?c) json"
    by (simp add: take_add)
  have e: "m + ?c + rest \<ge> length json \<or> ?c = n"
    by (auto simp: min_def)
  have t: "take (m + ?c + rest) json = take (m + (n + rest)) json"
    using e by (auto simp: add.assoc)
  have d: "drop (m + ?c + rest) json = drop (m + (n + rest)) json"
    using e by (auto simp: add.assoc)
  have l: "length json - (m + ?c + rest) = length json - (m + (n + rest))"
    using e by (auto simp: min_def)
  have l2: "length json - m - ?c = length json - (m + ?c)" by simp
  have r: "read_callback (Suc 0) n0 \<lparr>r_data = drop m json, r_size = length json - m\<rparr> =
     (?c, take ?c (drop m json),
      \<lparr>r_data = drop (m + ?c) json, r_size = length json - (m + ?c)\<rparr>)"
    by (simp add: read_callback_eq n_def add.commute [of _ m])
  have "curl_easy_perform (map Upload (n0 # ns)) res
     \<lparr>x_response = w, x_request = Some \<lparr>r_data = drop m json, r_size = length json - m\<rparr>,
      x_sent = take m json, x_heap = h\<rparr> =
     curl_easy_perform (map Upload ns) res
     \<lparr>x_response = w,
      x_request = Some \<lparr>r_data = drop (m + ?c) json, r_size = length json - (m + ?c)\<rparr>,
      x_sent = take (m + ?c) json, x_heap = h\<rparr>"
    by (simp add: r s)
  also have "\<dots> = (res,
    \<lparr>x_response = w,
     x_request = Some \<lparr>r_data = drop (m + ?c + rest) json,
                       r_size = length json - (m + ?c + rest)\<rparr>,
     x_sent = take (m + ?c + rest) json, x_heap = h\<rparr>)"
    using Cons.IH [of "m + ?c"] by (simp add: rest_def)
  finally have F: "curl_easy_perform (map Upload (n0 # ns)) res
     \<lparr>x_response = w, x_request = Some \<lparr>r_data = drop m json, r_size = length json - m\<rparr>,
      x_sent = take m json, x_heap = h\<rparr> =
     (res,
      \<lparr>x_response = w,
       x_request = Some \<lparr>r_data = drop (m + ?c + rest) json,
                         r_size = length json - (m + ?c + rest)\<rparr>,
       x_sent = take (m + ?c + rest) json, x_heap = h\<rparr>)" .
  show ?case
    using F [unfolded t d l] by (simp only: n_def rest_def list.map sum_list.Cons)
qed

lemma uploads_from_start:
  "curl_easy_perform (map Upload ns) res
     \<lparr>x_response = w, x_request = Some \<lparr>r_data = json, r_size = strlen json\<rparr>,
      x_sent = [], x_heap = h\<rparr> =
     (res,
      \<lparr>x_response = w,
       x_request = Some \<lparr>r_data = drop (sum_list (map size_t ns)) json,
                         r_size = length json - sum_list (map size_t ns)\<rparr>,
       x_sent = take (sum_list (map size_t ns)) json, x_heap = h\<rparr>)"
  using uploads [of ns res w 0 json h] by (simp add: strlen_def)

lemma perform_code_indep:
  "x_response x = x_response y \<Longrightarrow> x_heap x = x_heap y \<Longrightarrow>
     fst (curl_easy_perform es res x) = fst (curl_easy_perform es res y)"
proof (induction es arbitrary: x y)
  case Nil
  then show ?case by simp
next
  case (Cons e es)
  show ?case
  proof (cases e)
    case (Upload n)
    show ?thesis
      using Cons.prems Upload
      by (auto simp: read_callback_eq split: option.splits intro!: Cons.IH)
  next
    case (Download chunk oc)
    show ?thesis
      using Cons.prems Download
      by (auto split: prod.splits intro!: Cons.IH)
  qed
qed

lemma http_post_ret:
  "ret (http_post PATH_MAX env host port path json r h) =
     (if INT_MAX < length (format_url host port (skip_slashes path)) \<or> \<not> handle_ok env
      then - 1
      else int (fst (curl_easy_perform (events env) (final_code env)
                  \<lparr>x_response = \<lparr>w_data = fst (malloc (first_block env) 1 h), w_size = 0\<rparr>,
                   x_request = Some \<lparr>r_data = json, r_size = strlen json\<rparr>,
                   x_sent = [], x_heap = snd (malloc (first_block env) 1 h)\<rparr>)))"
  by (auto simp: http_post_def snprintf_def Let_def split: prod.splits)

lemma http_post_sent:
  "sent (http_post PATH_MAX env host port path json r h) =
     (if INT_MAX < length (format_url host port (skip_slashes path)) \<or> \<not> handle_ok env
      then []
      else x_sent (snd (curl_easy_perform (events env) (final_code env)
                  \<lparr>x_response = \<lparr>w_data = fst (malloc (first_block env) 1 h), w_size = 0\<rparr>,
                   x_request = Some \<lparr>r_data = json, r_size = strlen json\<rparr>,
                   x_sent = [], x_heap = snd (malloc (first_block env) 1 h)\<rparr>)))"
  by (auto simp: http_post_def snprintf_def Let_def split: prod.splits)

text \<open>
  Claim C5. \<open>http_post\<close> declares \<open>strlen(json)\<close> as the size of the body. One call of
  the read callback copies \<open>min(remaining, offered)\<close> bytes from the cursor, where the
  offered size is the product \<^verbatim>\<open>size * nmemb\<close> as \<^verbatim>\<open>size_t\<close> forms it, and moves the
  cursor and the remaining count by as much; with nothing remaining it returns 0 and
  copies nothing. Over any sequence of offered buffers the bytes handed over are the
  first bytes of the body, in order, as many as were offered and never more than the
  body has; once the buffers offered add up to the length of the body, they are the
  whole body. The value \<open>http_post\<close> returns does not depend on the body, so an empty
  body, declared with length 0, is no error.
\<close>

theorem post_body_streamed:
  "read_callback sz nmemb d =
     (min (r_size d) (size_t (sz * nmemb)),
      take (min (r_size d) (size_t (sz * nmemb))) (r_data d),
      d\<lparr>r_data := drop (min (r_size d) (size_t (sz * nmemb))) (r_data d),
        r_size := r_size d - min (r_size d) (size_t (sz * nmemb))\<rparr>) \<and>
   read_callback 4294967296 4294967296 \<lparr>r_data = ''hello'', r_size = 5\<rparr> =
     (0, [], \<lparr>r_data = ''hello'', r_size = 5\<rparr>) \<and>
   read_callback sz nmemb \<lparr>r_data = t, r_size = 0\<rparr> = (0, [], \<lparr>r_data = t, r_size = 0\<rparr>) \<and>
   curl_easy_perform (map Upload ns) res
     \<lparr>x_response = w, x_request = Some \<lparr>r_data = json, r_size = strlen json\<rparr>,
      x_sent = [], x_heap = h\<rparr> =
     (res,
      \<lparr>x_response = w,
       x_request = Some \<lparr>r_data = drop (sum_list (map size_t ns)) json,
                         r_size = length json - sum_list (map size_t ns)\<rparr>,
       x_sent = take (sum_list (map size_t ns)) json, x_heap = h\<rparr>) \<and>
   (length json \<le> sum_list (map size_t ns) \<longrightarrow>
      x_sent (snd (curl_easy_perform (map Upload ns) res
        \<lparr>x_response = w, x_request = Some \<lparr>r_data = json, r_size = strlen json\<rparr>,
         x_sent = [], x_heap = h\<rparr>)) = json \<and>
      read_callback sz nmemb
        (the (x_request (snd (curl_easy_perform (map Upload ns) res
          \<lparr>x_response = w, x_request = Some \<lparr>r_data = json, r_size = strlen json\<rparr>,
           x_sent = [], x_heap = h\<rparr>)))) =
        (0, [], \<lparr>r_data = [], r_size = 0\<rparr>)) \<and>
   map_option opt_postfieldsize
       (performed (http_post PATH_MAX env host port path json r h)) =
     (if handle_ok env \<and> length (format_url host port (skip_slashes path)) \<le> INT_MAX
      then Some (int (strlen json)) else None) \<and>
   sent (http_post PATH_MAX (env\<lparr>events := map Upload ns\<rparr>) host port path json r h) =
     (if handle_ok env \<and> length (format_url host port (skip_slashes path)) \<le> INT_MAX
      then take (sum_list (map size_t ns)) json else []) \<and>
   ret (http_post PATH_MAX env host port path [] r h) =
     ret (http_post PATH_MAX env host port path json r h) \<and>
   map_option opt_postfieldsize
       (performed (http_post 4096 quiet ''localhost'' 5000 ''/home'' [] None [])) = Some 0 \<and>
   ret (http_post 4096 quiet ''localhost'' 5000 ''/home'' [] None []) = 0"
proof -
  have a: "read_callback sz nmemb \<lparr>r_data = t, r_size = 0\<rparr> =
             (0, [], \<lparr>r_data = t, r_size = 0\<rparr>)"
    by (simp add: read_callback_def)
  have wrap: "read_callback 4294967296 4294967296 \<lparr>r_data = ''hello'', r_size = 5\<rparr> =
     (0, [], \<lparr>r_data = ''hello'', r_size = 5\<rparr>)"
    by (simp add: read_callback_def size_t_def SIZE_MAX_def Let_def)
  have b: "length json \<le> sum_list (map size_t ns) \<longrightarrow>
      x_sent (snd (curl_easy_perform (map Upload ns) res
        \<lparr>x_response = w, x_request = Some \<lparr>r_data = json, r_size = strlen json\<rparr>,
         x_sent = [], x_heap = h\<rparr>)) = json \<and>
      read_callback sz nmemb
        (the (x_request (snd (curl_easy_perform (map Upload ns) res
          \<lparr>x_response = w, x_request = Some \<lparr>r_data = json, r_size = strlen json\<rparr>,
           x_sent = [], x_heap = h\<rparr>)))) =
        (0, [], \<lparr>r_data = [], r_size = 0\<rparr>)"
    unfolding uploads_from_start by (simp add: read_callback_def)
  have c: "map_option opt_postfieldsize
       (performed (http_post PATH_MAX env host port path json r h)) =
     (if handle_ok env \<and> length (format_url host port (skip_slashes path)) \<le> INT_MAX
      then Some (int (strlen json)) else None)"
    by (simp add: http_post_performed strlen_def)
  have d: "sent (http_post PATH_MAX (env\<lparr>events := map Upload ns\<rparr>) host port path json r h) =
     (if handle_ok env \<and> length (format_url host port (skip_slashes path)) \<le> INT_MAX
      then take (sum_list (map size_t ns)) json else [])"
    unfolding http_post_sent by (simp add: uploads_from_start)
  have e: "ret (http_post PATH_MAX env host port path [] r h) =
     ret (http_post PATH_MAX env host port path json r h)"
  proof -
    have "fst (curl_easy_perform (events env) (final_code env)
                  \<lparr>x_response = \<lparr>w_data = fst (malloc (first_block env) 1 h), w_size = 0\<rparr>,
                   x_request = Some \<lparr>r_data = [], r_size = strlen []\<rparr>,
                   x_sent = [], x_heap = snd (malloc (first_block env) 1 h)\<rparr>) =
          fst (curl_easy_perform (events env) (final_code env)
                  \<lparr>x_response = \<lparr>w_data = fst (malloc (first_block env) 1 h), w_size = 0\<rparr>,
                   x_request = Some \<lparr>r_data = json, r_size = strlen json\<rparr>,
                   x_sent = [], x_heap = snd (malloc (first_block env) 1 h)\<rparr>)"
      by (rule perform_code_indep) simp_all
    then show ?thesis unfolding http_post_ret by simp
  qed
  have l: "length (format_url ''localhost'' 5000 (skip_slashes ''/home'')) = 19"
    by (simp add: format_url_def utoa.simps)
  have f: "map_option opt_postfieldsize
       (performed (http_post 4096 quiet ''localhost'' 5000 ''/home'' [] None [])) = Some 0"
    unfolding http_post_performed l by (simp add: quiet_def INT_MAX_def)
  have g: "ret (http_post 4096 quiet ''localhost'' 5000 ''/home'' [] None []) = 0"
    unfolding http_post_ret l by (simp add: quiet_def INT_MAX_def)
  show ?thesis
    using read_callback_eq [of sz nmemb d] wrap a uploads_from_start [of ns res w json h]
      b c d e f g
    by simp
qed

theorem post_body_streamed_witness:
  "length ''Hello World'' \<le> sum_list (map size_t [4, 4, 4]) \<and>
   x_sent (snd (curl_easy_perform (map Upload [4, 4, 4]) CURLE_OK
     \<lparr>x_response = \<lparr>w_data = NULL, w_size = 0\<rparr>,
      x_request = Some \<lparr>r_data = ''Hello World'', r_size = strlen ''Hello World''\<rparr>,
      x_sent = [], x_heap = []\<rparr>)) = ''Hello World''"
proof -
  have l: "length ''Hello World'' \<le> sum_list (map size_t [4, 4, 4])"
    by (simp add: size_t_def SIZE_MAX_def)
  note t = post_body_streamed
      [where json = "''Hello World''" and ns = "[4, 4, 4]" and res = CURLE_OK
         and w = "\<lparr>w_data = NULL, w_size = 0\<rparr>" and h = "[]",
       THEN conjunct2, THEN conjunct2, THEN conjunct2, THEN conjunct2, THEN conjunct1,
       THEN mp, OF l, THEN conjunct1]
  show ?thesis by (rule conjI [OF l t])
qed

end
